theory Spec2Isabelle
  imports Main
begin

section \<open>Python text primitives used by the scraper\<close>

text \<open>
  Python strings are sequences of code points. The model uses \<open>string\<close>, whose
  characters stand for the code points 0 to 255; lengths count characters, as
  Python's \<open>len\<close> does. Within that range the definitions below agree with
  \<open>str.isspace\<close>, the \<open>\s\<close> and \<open>\d\<close> classes of \<open>re\<close> on \<open>str\<close> patterns,
  and \<open>str.lower\<close>.
\<close>

definition py_isspace :: "char \<Rightarrow> bool" where
  "py_isspace c = ((of_char c :: nat) \<in> set [9, 10, 11, 12, 13, 28, 29, 30, 31, 32, 133, 160])"

definition py_isdigit :: "char \<Rightarrow> bool" where
  "py_isdigit c = (48 \<le> (of_char c :: nat) \<and> (of_char c :: nat) \<le> 57)"

definition py_lower_char :: "char \<Rightarrow> char" where
  "py_lower_char c =
     (let n = (of_char c :: nat)
      in if (65 \<le> n \<and> n \<le> 90) \<or> (192 \<le> n \<and> n \<le> 222 \<and> n \<noteq> 215)
         then char_of (n + 32) else c)"

definition py_lower :: "string \<Rightarrow> string" where
  "py_lower s = map py_lower_char s"

text \<open>\<open>s.strip()\<close>: whitespace removed at both ends.\<close>

definition py_strip :: "string \<Rightarrow> string" where
  "py_strip s = rev (dropWhile py_isspace (rev (dropWhile py_isspace s)))"

definition py_startswith :: "string \<Rightarrow> string \<Rightarrow> bool" where
  "py_startswith s p = (take (length p) s = p)"

definition py_endswith :: "string \<Rightarrow> string \<Rightarrow> bool" where
  "py_endswith s p = (length p \<le> length s \<and> drop (length s - length p) s = p)"

text \<open>\<open>sub in s\<close>: \<open>sub\<close> occurs in \<open>s\<close> as a contiguous substring.\<close>

fun py_in :: "string \<Rightarrow> string \<Rightarrow> bool" where
  "py_in sub [] = (sub = [])"
| "py_in sub (c # cs) = (py_startswith (c # cs) sub \<or> py_in sub cs)"

text \<open>\<open>s.replace(a, b)\<close> for one-character \<open>a\<close> and \<open>b\<close>.\<close>

definition py_replace :: "char \<Rightarrow> char \<Rightarrow> string \<Rightarrow> string" where
  "py_replace a b s = map (\<lambda>c. if c = a then b else c) s"

text \<open>
  \<open>re.sub(r'^Abstract\s*:?\s*', '', s, flags=re.IGNORECASE)\<close>: the pattern is anchored
  at the start, so at most one match is removed; each quantifier is greedy and what
  follows it never needs the characters it took.
\<close>

definition sub_abstract_label :: "string \<Rightarrow> string" where
  "sub_abstract_label s =
     (if py_lower (take 8 s) = ''abstract'' then
        (let r1 = dropWhile py_isspace (drop 8 s);
             r2 = (case r1 of [] \<Rightarrow> [] | c # cs \<Rightarrow> if c = CHR '':'' then cs else c # cs)
         in dropWhile py_isspace r2)
      else s)"

text \<open>
  One match of \<open>CVPR\s+\d{4}.*\<close> at the start of \<open>s\<close>: the text after the match,
  or \<open>None\<close>. The dot does not match a newline, so the match ends before the next
  newline after the four digits.
\<close>

definition match_cvpr :: "string \<Rightarrow> string option" where
  "match_cvpr s =
     (if take 4 s = ''CVPR'' then
        (let r = drop 4 s; d = dropWhile py_isspace r
         in if length d < length r \<and> 4 \<le> length d \<and> list_all py_isdigit (take 4 d)
            then Some (dropWhile (\<lambda>c. c \<noteq> CHR 0x0A) (drop 4 d))
            else None)
      else None)"

lemma match_cvpr_shorter: "match_cvpr s = Some r \<Longrightarrow> length r < length s"
proof -
  assume m: "match_cvpr s = Some r"
  define d where "d = dropWhile py_isspace (drop 4 s)"
  from m have r: "r = dropWhile (\<lambda>c. c \<noteq> CHR 0x0A) (drop 4 d)" and d4: "4 \<le> length d"
    by (auto simp: match_cvpr_def Let_def d_def split: if_splits)
  have "length r \<le> length (drop 4 d)"
    unfolding r by (rule length_dropWhile_le)
  moreover have "length d \<le> length (drop 4 s)"
    unfolding d_def by (rule length_dropWhile_le)
  ultimately show ?thesis using d4 by simp
qed

text \<open>\<open>re.sub(r'CVPR\s+\d{4}.*', '', s)\<close>: every match, left to right, is removed.\<close>

function sub_cvpr :: "string \<Rightarrow> string" where
  "sub_cvpr [] = []"
| "sub_cvpr (c # cs) =
     (case match_cvpr (c # cs) of
        Some r \<Rightarrow> sub_cvpr r
      | None \<Rightarrow> c # sub_cvpr cs)"
  by pat_completeness auto
termination
  by (relation "measure length") (auto dest: match_cvpr_shorter)

section \<open>The parsed page and the extracted record\<close>

text \<open>
  A page parsed by BeautifulSoup is seen by \<open>scrape_paper\<close> only through four
  queries; the model of a parsed page is their answers. Every text is the element's
  \<open>get_text()\<close>, before any stripping.
\<close>

record soup =
  select_one :: "string \<Rightarrow> string option"
  find_all_emph :: "string list"
  find_all_p :: "string list"
  find_all_a :: "(string \<times> string) list"

text \<open>
  \<open>select_one sel\<close> is the text of the first element matching the CSS selector,
  \<open>find_all_emph\<close> the texts of the \<open>i\<close>, \<open>b\<close>, \<open>em\<close> and \<open>strong\<close> elements,
  \<open>find_all_p\<close> the texts of the paragraphs, and \<open>find_all_a\<close> the pairs of
  \<open>href\<close> and text of the hyperlinks that have an \<open>href\<close>, all in document order.
\<close>

record paper =
  title :: string
  authors :: string
  abstract :: string
  year :: int
  url :: string
  pdf_url :: "string option"
  supplementary_url :: "string option"

definition title_selectors :: "string list" where
  "title_selectors = [''title'', ''h1'', ''.paper-title'', ''#papertitle'']"

definition author_selectors :: "string list" where
  "author_selectors = [''.authors'', ''.paper-authors'', ''#authors'', ''.author'']"

definition abstract_selectors :: "string list" where
  "abstract_selectors =
     [''.abstract'', ''#abstract'', ''.paper-abstract'',
      ''div:contains(\"Abstract\")'', ''p:contains(\"Abstract\")'',
      ''div[id*=\"abstract\"]'', ''div[class*=\"abstract\"]'']"

text \<open>The title loop: the variable keeps the last value assigned to it.\<close>

fun title_loop :: "soup \<Rightarrow> string \<Rightarrow> string list \<Rightarrow> string" where
  "title_loop sp t [] = t"
| "title_loop sp t (sel # sels) =
     (case select_one sp sel of
        None \<Rightarrow> title_loop sp t sels
      | Some txt \<Rightarrow>
          (let t' = py_strip (sub_cvpr (py_strip txt))
           in if t' \<noteq> [] then t' else title_loop sp t' sels))"

fun author_loop :: "soup \<Rightarrow> string \<Rightarrow> string list \<Rightarrow> string" where
  "author_loop sp a [] = a"
| "author_loop sp a (sel # sels) =
     (case select_one sp sel of
        None \<Rightarrow> author_loop sp a sels
      | Some txt \<Rightarrow> py_strip txt)"

text \<open>\<open>len(text.split(','))\<close> is one more than the number of commas.\<close>

fun emph_loop :: "string \<Rightarrow> string list \<Rightarrow> string" where
  "emph_loop a [] = a"
| "emph_loop a (e # es) =
     (let text = py_strip e
      in if CHR '','' \<in> set text \<and> 1 < count_list text (CHR '','') + 1
         then text else emph_loop a es)"

text \<open>
  The abstract loop assigns the stripped text of every matching selector to
  \<open>abstract\<close> and leaves the loop only when that text is longer than 50.
\<close>

fun abstract_loop :: "soup \<Rightarrow> string \<Rightarrow> string list \<Rightarrow> string" where
  "abstract_loop sp a [] = a"
| "abstract_loop sp a (sel # sels) =
     (case select_one sp sel of
        None \<Rightarrow> abstract_loop sp a sels
      | Some txt \<Rightarrow>
          (let a' = py_strip (sub_abstract_label (py_strip txt))
           in if 50 < length a' then a' else abstract_loop sp a' sels))"

fun paragraph_loop :: "string \<Rightarrow> string list \<Rightarrow> string" where
  "paragraph_loop a [] = a"
| "paragraph_loop a (p # ps) =
     (let text = py_strip p
      in if 200 < length text \<and> \<not> py_in ''abstract'' (take 50 (py_lower text))
         then text else paragraph_loop a ps)"

definition extract_title :: "soup \<Rightarrow> string" where
  "extract_title sp = title_loop sp [] title_selectors"

definition extract_authors :: "soup \<Rightarrow> string" where
  "extract_authors sp =
     (let a = author_loop sp [] author_selectors
      in if a = [] then emph_loop a (find_all_emph sp) else a)"

definition extract_abstract :: "soup \<Rightarrow> string" where
  "extract_abstract sp =
     (let a = abstract_loop sp [] abstract_selectors
      in if a = [] then paragraph_loop a (find_all_p sp) else a)"

text \<open>
  The two tests of the link loop, in the order of the source: the PDF test is the
  \<open>if\<close>, the supplementary test its \<open>elif\<close>.
\<close>

definition pdf_test :: "string \<times> string \<Rightarrow> bool" where
  "pdf_test l = (py_in ''pdf'' (py_lower (snd l)) \<or> py_endswith (fst l) ''.pdf'')"

definition supp_test :: "string \<times> string \<Rightarrow> bool" where
  "supp_test l =
     (py_in ''supp'' (py_lower (snd l)) \<or> py_in ''supplementary'' (py_lower (snd l)))"

text \<open>
  \<open>urljoin\<close> belongs to the standard library; it is a parameter, and \<open>None\<close> stands
  for its raising (a malformed URL), which ends \<open>scrape_paper\<close> in its \<open>except\<close>.
\<close>

fun link_loop ::
  "(string \<Rightarrow> string \<Rightarrow> string option) \<Rightarrow> string \<Rightarrow> string \<times> string \<Rightarrow>
   (string \<times> string) list \<Rightarrow> (string \<times> string) option" where
  "link_loop uj u ps [] = Some ps"
| "link_loop uj u ps (l # ls) =
     (if pdf_test l then
        (case uj u (fst l) of
           None \<Rightarrow> None
         | Some j \<Rightarrow> link_loop uj u (j, snd ps) ls)
      else if supp_test l then
        (case uj u (fst l) of
           None \<Rightarrow> None
         | Some j \<Rightarrow> link_loop uj u (fst ps, j) ls)
      else link_loop uj u ps ls)"

text \<open>
  The \<open>try\<close> block of \<open>scrape_paper\<close>, from the parsed page on. \<open>None\<close> is the
  rejection: a missing required field, or an exception caught by the \<open>except\<close>.
\<close>

definition scrape_soup ::
  "(string \<Rightarrow> string \<Rightarrow> string option) \<Rightarrow> soup \<Rightarrow> string \<Rightarrow> int \<Rightarrow> paper option" where
  "scrape_soup uj sp u y =
     (let t = extract_title sp;
          au = extract_authors sp;
          ab = extract_abstract sp
      in case link_loop uj u ([], []) (find_all_a sp) of
           None \<Rightarrow> None
         | Some (pdf, supp) \<Rightarrow>
             if t \<noteq> [] \<and> ab \<noteq> [] then
               Some \<lparr>title = t, authors = au, abstract = ab, year = y, url = u,
                     pdf_url = (if pdf \<noteq> [] then Some pdf else None),
                     supplementary_url = (if supp \<noteq> [] then Some supp else None)\<rparr>
             else None)"

section \<open>The scraper and its environment\<close>

record scraper =
  start_year :: int
  end_year :: int
  max_concurrent :: int
  use_cache :: bool
  parallel_years :: bool

text \<open>
  What a call can end with instead of a value: an exception whose class derives from
  \<open>Exception\<close>, or one whose class derives from \<open>BaseException\<close> only, as
  \<open>asyncio.CancelledError\<close> does. The string names the class.
\<close>

datatype exn = Exception string | BaseException string

text \<open>
  What one run of the process takes from outside the repository: the answers of the
  network (\<open>None\<close> is a transport error, otherwise the status and the body), the
  built-in \<open>hash\<close> on strings of this interpreter process, the HTML parser
  (\<open>None\<close> is its raising), \<open>urljoin\<close>, and the verdicts of the operating
  system on a path: whether \<open>stat\<close> on it raises an error that \<open>Path.exists\<close>
  lets through (a name that is too long), whether opening it for writing raises (a
  missing directory, a name that is too long, a NUL character, no permission),
  whether opening it for reading raises, and whether a write to it fails: \<open>Some n\<close>
  is a write that raises after \<open>n\<close> of its bytes have reached the file (a full
  disk), \<open>None\<close> one that succeeds.
\<close>

record world =
  http_get :: "string \<Rightarrow> (int \<times> string) option"
  py_hash :: "string \<Rightarrow> int"
  parse_html :: "string \<Rightarrow> soup option"
  urljoin :: "string \<Rightarrow> string \<Rightarrow> string option"
  stat_raises :: "string \<Rightarrow> bool"
  open_w_raises :: "string \<Rightarrow> bool"
  open_r_raises :: "string \<Rightarrow> bool"
  write_fails_after :: "string \<Rightarrow> nat option"

section \<open>The response cache\<close>

text \<open>
  The model is of a POSIX system. A file holds bytes; the cache files are opened in
  text mode with \<open>encoding='utf-8'\<close> and the default \<open>newline\<close> argument (lines
  106 and 121 of the source). On writing, the text is encoded and a line feed stays a
  line feed (\<open>os.linesep\<close>). On reading, the bytes are decoded, and then a carriage
  return followed by a line feed, and a carriage return alone, become one line feed.
\<close>

abbreviation LF :: char where "LF \<equiv> CHR 0x0A"
abbreviation CR :: char where "CR \<equiv> CHR 0x0D"

type_synonym bytes = "char list"

text \<open>
  UTF-8 of the code points 0 to 255: one byte below 128, otherwise the lead byte 194
  or 195 and one continuation byte. The decoder accepts exactly these sequences; any
  other byte sequence is a decoding error or holds a code point that the texts of the
  model do not have, and is \<open>None\<close>.
\<close>

definition utf8_encode_char :: "char \<Rightarrow> bytes" where
  "utf8_encode_char c =
     (let n = (of_char c :: nat)
      in if n < 128 then [c] else [char_of (192 + n div 64), char_of (128 + n mod 64)])"

definition utf8_encode :: "string \<Rightarrow> bytes" where
  "utf8_encode s = concat (map utf8_encode_char s)"

fun utf8_decode :: "bytes \<Rightarrow> string option" where
  "utf8_decode [] = Some []"
| "utf8_decode [b] = (if (of_char b :: nat) < 128 then Some [b] else None)"
| "utf8_decode (b # b2 # bs) =
     (let n = (of_char b :: nat); m = (of_char b2 :: nat)
      in if n < 128 then map_option ((#) b) (utf8_decode (b2 # bs))
         else if (n = 194 \<or> n = 195) \<and> 128 \<le> m \<and> m < 192
         then map_option ((#) (char_of ((n - 192) * 64 + (m - 128)))) (utf8_decode bs)
         else None)"

fun read_translate :: "string \<Rightarrow> string" where
  "read_translate [] = []"
| "read_translate [c] = [if c = CR then LF else c]"
| "read_translate (c # d # ds) =
     (if c = CR then
        (if d = LF then LF # read_translate ds else LF # read_translate (d # ds))
      else c # read_translate (d # ds))"

text \<open>
  \<open>self.cache_dir / f"{cache_key}.html"\<close> with \<open>cache_dir = Path("cvpr_cache")\<close>:
  \<open>pathlib\<close> joins the two strings as \<open>posixpath.join\<close> does, so that a second
  string starting with a slash replaces the first, and then parses the result: the root
  is \<open>//\<close> for exactly two leading slashes and \<open>/\<close> for any other number, empty
  components and components that are a single dot are dropped, and the path is the
  root followed by the remaining components joined by slashes.
\<close>

primrec split_on :: "char \<Rightarrow> string \<Rightarrow> string list" where
  "split_on d [] = [[]]"
| "split_on d (c # cs) =
     (if c = d then [] # split_on d cs
      else (case split_on d cs of [] \<Rightarrow> [[c]] | p # ps \<Rightarrow> (c # p) # ps))"

definition posix_join :: "string \<Rightarrow> string \<Rightarrow> string" where
  "posix_join a b =
     (if take 1 b = ''/'' then b
      else if a = [] \<or> py_endswith a ''/'' then a @ b
      else a @ ''/'' @ b)"

definition path_root :: "string \<Rightarrow> string" where
  "path_root p =
     (if take 1 p \<noteq> ''/'' then []
      else if take 2 p = ''//'' \<and> take 3 p \<noteq> ''///'' then ''//''
      else ''/'')"

definition path_parts :: "string \<Rightarrow> string list" where
  "path_parts p = filter (\<lambda>x. x \<noteq> [] \<and> x \<noteq> ''.'') (split_on (CHR ''/'') p)"

fun join_slash :: "string list \<Rightarrow> string" where
  "join_slash [] = []"
| "join_slash [p] = p"
| "join_slash (p # q # ps) = p @ ''/'' @ join_slash (q # ps)"

definition path_str :: "string \<Rightarrow> string" where
  "path_str p =
     (if path_root p = [] \<and> path_parts p = [] then ''.''
      else path_root p @ join_slash (path_parts p))"

definition cache_file :: "string \<Rightarrow> string" where
  "cache_file cache_key = path_str (posix_join ''cvpr_cache'' (cache_key @ ''.html''))"

text \<open>The file system maps a path to the bytes stored under it.\<close>

type_synonym fs = "string \<rightharpoonup> bytes"

text \<open>
  \<open>cache_file.exists()\<close> at line 104, outside the \<open>try\<close>: the error of a
  \<open>stat\<close> that raises leaves \<open>get_cached_or_fetch\<close>.
\<close>

definition path_exists :: "world \<Rightarrow> fs \<Rightarrow> string \<Rightarrow> exn + bool" where
  "path_exists w files path =
     (if stat_raises w path then Inl (Exception ''OSError'') else Inr (files path \<noteq> None))"

text \<open>
  Lines 106 and 107: the whole file is read as text. \<open>None\<close> is an exception of the
  open or of the decoder.
\<close>

definition read_text :: "world \<Rightarrow> fs \<Rightarrow> string \<Rightarrow> string option" where
  "read_text w files path =
     (if open_r_raises w path then None
      else case files path of
             None \<Rightarrow> None
           | Some stored \<Rightarrow> map_option read_translate (utf8_decode stored))"

text \<open>
  \<open>aiofiles.open(cache_file, 'w')\<close> creates the file or truncates it, at the path of
  the cache file itself; \<open>None\<close> is its raising. \<open>f.write(content)\<close> is the first
  write through that handle, so it starts at offset 0 and replaces the bytes it covers;
  a write that fails has stored the bytes that reached the file before the error.
\<close>

definition open_w :: "world \<Rightarrow> fs \<Rightarrow> string \<Rightarrow> fs option" where
  "open_w w files path = (if open_w_raises w path then None else Some (files(path \<mapsto> [])))"

definition write_f :: "world \<Rightarrow> fs \<Rightarrow> string \<Rightarrow> string \<Rightarrow> fs" where
  "write_f w files path content =
     (let data = (case write_fails_after w path of
                    None \<Rightarrow> utf8_encode content
                  | Some n \<Rightarrow> take n (utf8_encode content));
          old = (case files path of None \<Rightarrow> [] | Some x \<Rightarrow> x)
      in files(path \<mapsto> data @ drop (length data) old))"

text \<open>
  Lines 120 to 124: the two awaited steps of storing a response. An exception of the
  open is caught and nothing is stored; an exception of the write is caught too, and
  the file keeps what the write had stored.
\<close>

definition cache_put :: "world \<Rightarrow> fs \<Rightarrow> string \<Rightarrow> string \<Rightarrow> fs" where
  "cache_put w files cache_key content =
     (case open_w w files (cache_file cache_key) of
        None \<Rightarrow> files
      | Some opened \<Rightarrow> write_f w opened (cache_file cache_key) content)"

text \<open>
  Lines 104 to 109: \<open>Inl\<close> is the error of \<open>exists()\<close>; \<open>Inr None\<close> is a file
  that does not exist, or whose reading raised, which the \<open>except\<close> turns into a
  miss.
\<close>

definition cache_get :: "world \<Rightarrow> fs \<Rightarrow> string \<Rightarrow> exn + string option" where
  "cache_get w files cache_key =
     (case path_exists w files (cache_file cache_key) of
        Inl e \<Rightarrow> Inl e
      | Inr False \<Rightarrow> Inr None
      | Inr True \<Rightarrow> Inr (read_text w files (cache_file cache_key)))"

section \<open>Fetching and scraping one page\<close>

definition digit_char :: "nat \<Rightarrow> char" where
  "digit_char n = char_of (48 + n)"

function str_nat :: "nat \<Rightarrow> string" where
  "str_nat n = (if n < 10 then [digit_char n] else str_nat (n div 10) @ [digit_char (n mod 10)])"
  by pat_completeness auto
termination
  by (relation "measure id") auto

text \<open>\<open>str(i)\<close> of an integer, as an f-string formats it.\<close>

definition py_str_int :: "int \<Rightarrow> string" where
  "py_str_int i = (if i < 0 then CHR ''-'' # str_nat (nat (- i)) else str_nat (nat i))"

text \<open>
  The result of \<open>get_cached_or_fetch\<close> is the file system it leaves and either the
  exception that left it or its return value, \<open>None\<close> or the content.
\<close>

definition get_cached_or_fetch ::
  "scraper \<Rightarrow> world \<Rightarrow> fs \<Rightarrow> string \<Rightarrow> string option \<Rightarrow> fs \<times> (exn + string option)" where
  "get_cached_or_fetch self w files u cache_key =
     (let k = (case cache_key of
                 None \<Rightarrow> py_replace (CHR '':'') (CHR ''_'') (py_replace (CHR ''/'') (CHR ''_'') u)
               | Some k' \<Rightarrow> k');
          hit = (if use_cache self then cache_get w files k else Inr None)
      in case hit of
           Inl e \<Rightarrow> (files, Inl e)
         | Inr (Some content) \<Rightarrow> (files, Inr (Some content))
         | Inr None \<Rightarrow>
             (case http_get w u of
                None \<Rightarrow> (files, Inr None)
              | Some (status, content) \<Rightarrow>
                  if status = 200 then
                    ((if use_cache self then cache_put w files k content else files),
                     Inr (Some content))
                  else (files, Inr None)))"

text \<open>Line 196: the cache key of a document page.\<close>

definition paper_cache_key :: "world \<Rightarrow> string \<Rightarrow> string" where
  "paper_cache_key w u = ''paper_'' @ py_str_int (py_hash w u)"

text \<open>
  The call at line 196 is outside the \<open>try\<close>, so an exception of
  \<open>get_cached_or_fetch\<close> leaves \<open>scrape_paper\<close> too.
\<close>

definition scrape_paper ::
  "scraper \<Rightarrow> world \<Rightarrow> fs \<Rightarrow> string \<Rightarrow> int \<Rightarrow> fs \<times> (exn + paper option)" where
  "scrape_paper self w files u y =
     (case get_cached_or_fetch self w files u (Some (paper_cache_key w u)) of
        (files', Inl e) \<Rightarrow> (files', Inl e)
      | (files', Inr None) \<Rightarrow> (files', Inr None)
      | (files', Inr (Some content)) \<Rightarrow>
          if content = [] then (files', Inr None)
          else (case parse_html w content of
                  None \<Rightarrow> (files', Inr None)
                | Some sp \<Rightarrow> (files', Inr (scrape_soup (urljoin w) sp u y))))"

section \<open>The admission gate of \<open>scrape_year\<close>\<close>

text \<open>
  Each call of \<open>scrape_year\<close> that has found URLs creates its own
  \<open>asyncio.Semaphore(self.max_concurrent)\<close> (line 305) and one task per URL; a
  task holds the semaphore of its own call while it runs \<open>scrape_paper\<close>. The state
  of one call is the value of its semaphore, the number of its tasks still outside the
  \<open>async with\<close>, and the number inside it.
\<close>

record year_tasks =
  sem_value :: int
  waiting :: nat
  in_flight :: nat

type_synonym gates = "int \<rightharpoonup> year_tasks"


definition years_of :: "scraper \<Rightarrow> int list" where
  "years_of self = [start_year self..end_year self]"

definition parallel_mode :: "scraper \<Rightarrow> bool" where
  "parallel_mode self = (parallel_years self \<and> 1 < length (years_of self))"

definition idle :: "gates \<Rightarrow> int \<Rightarrow> bool" where
  "idle g y = (case g y of None \<Rightarrow> True | Some t \<Rightarrow> waiting t = 0 \<and> in_flight t = 0)"







section \<open>Running all years\<close>

text \<open>
  The claims about \<open>scrape_all_years\<close> concern what it does with the outcome of each
  \<open>scrape_year\<close> call, so that outcome is a parameter: a list of papers, or the
  exception the call ended with. The observable effects are recorded as a trace: the
  end of a call (by return or by raise) and each write of a checkpoint file with the
  papers it holds. Checkpoint writes themselves do not fail in the model.
\<close>

datatype event = YearDone int | CheckpointWrite string "paper list"

definition partial_file :: "int \<Rightarrow> string" where
  "partial_file y = ''cvpr_abstracts_partial_'' @ py_str_int y @ ''.json''"

text \<open>
  \<open>asyncio.gather(*tasks, return_exceptions=True)\<close> returns once every task has
  ended, with the results in the order of the tasks, whatever the order in which they
  ended.
\<close>

definition gather :: "(int \<Rightarrow> exn + paper list) \<Rightarrow> int list \<Rightarrow> (exn + paper list) list" where
  "gather run ys = map run ys"

text \<open>
  Lines 342 to 348: the loop over \<open>zip(years, results)\<close>. A result that is an
  instance of \<open>Exception\<close> is logged and skipped. Any other result is handed to
  \<open>all_papers.extend\<close>, which raises \<open>TypeError\<close> for an exception object, since
  it is not iterable; that error leaves the loop and \<open>scrape_all_years\<close>.
\<close>

fun merge_loop ::
  "paper list \<Rightarrow> (int \<times> (exn + paper list)) list \<Rightarrow> event list \<times> (exn + paper list)" where
  "merge_loop all_papers [] = ([], Inr all_papers)"
| "merge_loop all_papers ((y, Inl (Exception c)) # rest) = merge_loop all_papers rest"
| "merge_loop all_papers ((y, Inl (BaseException c)) # rest) = ([], Inl (Exception ''TypeError''))"
| "merge_loop all_papers ((y, Inr ps) # rest) =
     (let all' = all_papers @ ps;
          (tr, res) = merge_loop all' rest
      in (CheckpointWrite (partial_file y) all' # tr, res))"

text \<open>Lines 351 to 355: the sequential loop; an exception of a call leaves it.\<close>

fun seq_loop ::
  "(int \<Rightarrow> exn + paper list) \<Rightarrow> paper list \<Rightarrow> int list \<Rightarrow>
   event list \<times> (exn + paper list)" where
  "seq_loop run all_papers [] = ([], Inr all_papers)"
| "seq_loop run all_papers (y # ys) =
     (case run y of
        Inl e \<Rightarrow> ([YearDone y], Inl e)
      | Inr ps \<Rightarrow>
          (let all' = all_papers @ ps;
               (tr, res) = seq_loop run all' ys
           in (YearDone y # CheckpointWrite (partial_file y) all' # tr, res)))"

text \<open>
  \<open>completion\<close> is the order in which the concurrently running calls end; it is a
  choice of the scheduler and the network, and only the parallel branch has one.
\<close>

definition scrape_all_years ::
  "scraper \<Rightarrow> (int \<Rightarrow> exn + paper list) \<Rightarrow> int list \<Rightarrow> event list \<times> (exn + paper list)" where
  "scrape_all_years self run completion =
     (let years = years_of self
      in if parallel_years self \<and> 1 < length years then
           (let results = gather run years;
                (tr, res) = merge_loop [] (zip years results)
            in (map YearDone completion @ tr, res))
         else seq_loop run [] years)"



text \<open>The papers of the calls that returned, in the order of the given years.\<close>

definition ok_papers :: "(int \<Rightarrow> exn + paper list) \<Rightarrow> int list \<Rightarrow> paper list" where
  "ok_papers run ys = concat (map (\<lambda>y. case run y of Inl e \<Rightarrow> [] | Inr ps \<Rightarrow> ps) ys)"

section \<open>Example inputs\<close>

text \<open>
  A document page with a title that carries the venue annotation, an abstract of 74
  characters behind its label, and three links; the second link's text contains both
  \<open>pdf\<close> and \<open>supp\<close>.
\<close>

definition ex_abstract :: string where
  "ex_abstract = ''We propose a method that learns shape from images without any supervision.''"

definition ex_page :: string where
  "ex_page = ''<title>A Paper CVPR 2024 Open Access</title><div id=abstract>Abstract: ''
             @ ex_abstract
             @ ''</div><a href=p.pdf>pdf</a><a href=s.zip>Supp PDF</a><a href=t.zip>supp</a>''"

definition ex_soup :: soup where
  "ex_soup =
     \<lparr>select_one = (\<lambda>sel.
          if sel = ''title'' then Some ''A Paper CVPR 2024 Open Access''
          else if sel \<in> set [''#abstract'', ''div:contains(\"Abstract\")'', ''div[id*=\"abstract\"]'']
          then Some (''Abstract: '' @ ex_abstract)
          else None),
       find_all_emph = [],
       find_all_p = [],
       find_all_a = [(''p.pdf'', ''pdf''), (''s.zip'', ''Supp PDF''), (''t.zip'', ''supp'')]\<rparr>"

text \<open>
  The page \<open><title>A Paper</title><div class=abstract>Abstract: Too short.</div><p>x...x</p>\<close>
  with 250 letters in its paragraph, as parsed.
\<close>

definition short_page :: string where
  "short_page = ''<title>A Paper</title><div class=abstract>Abstract: Too short.</div><p>''
                @ replicate 250 (CHR ''x'') @ ''</p>''"

definition short_soup :: soup where
  "short_soup =
     \<lparr>select_one = (\<lambda>sel.
          if sel = ''title'' then Some ''A Paper''
          else if sel \<in> set [''.abstract'', ''div:contains(\"Abstract\")'', ''div[class*=\"abstract\"]'']
          then Some ''Abstract: Too short.''
          else None),
       find_all_emph = [],
       find_all_p = [replicate 250 (CHR ''x'')],
       find_all_a = []\<rparr>"

text \<open>The page \<open><title>A Paper</title>\<close>: a title and nothing else.\<close>

definition bare_page :: string where
  "bare_page = ''<title>A Paper</title>''"

definition bare_soup :: soup where
  "bare_soup =
     \<lparr>select_one = (\<lambda>sel. if sel = ''title'' then Some ''A Paper'' else None),
       find_all_emph = [], find_all_p = [], find_all_a = []\<rparr>"

definition ex_url :: string where
  "ex_url = ''https://example.org/d/x.html''"

definition bare_url :: string where
  "bare_url = ''https://example.org/d/y.html''"

text \<open>
  A run in which the two pages are served with status 200, the hash of every string
  is 42, \<open>urljoin\<close> resolves a plain file name against a URL in the directory
  \<open>https://example.org/d/\<close>, and the operating system accepts every path.
\<close>

definition ex_world :: world where
  "ex_world =
     \<lparr>http_get = (\<lambda>u. if u = ex_url then Some (200, ex_page)
                       else if u = bare_url then Some (200, bare_page) else None),
       py_hash = (\<lambda>u. 42),
       parse_html = (\<lambda>c. if c = ex_page then Some ex_soup
                         else if c = short_page then Some short_soup
                         else if c = bare_page then Some bare_soup else None),
       urljoin = (\<lambda>b h. Some (''https://example.org/d/'' @ h)),
       stat_raises = (\<lambda>p. False),
       open_w_raises = (\<lambda>p. False),
       open_r_raises = (\<lambda>p. False),
       write_fails_after = (\<lambda>p. None)\<rparr>"

definition ex_scraper :: scraper where
  "ex_scraper =
     \<lparr>start_year = 2015, end_year = 2017, max_concurrent = 1,
       use_cache = True, parallel_years = True\<rparr>"

definition ex_paper :: paper where
  "ex_paper =
     \<lparr>title = ''A Paper'', authors = [], abstract = ex_abstract, year = 2024, url = ex_url,
       pdf_url = Some ''https://example.org/d/s.zip'',
       supplementary_url = Some ''https://example.org/d/t.zip''\<rparr>"

text \<open>
  A later run of the program on the same machine: the network is down, and the
  interpreter has drawn another hash secret, so the hash of every string is \<open>-7\<close>.
  \<open>offline_world\<close> is a later run without network in which the hash happens to be
  the same as in \<open>ex_world\<close>.
\<close>

definition rerun_world :: world where
  "rerun_world = ex_world\<lparr>http_get := (\<lambda>u. None), py_hash := (\<lambda>u. - 7)\<rparr>"

definition offline_world :: world where
  "offline_world = ex_world\<lparr>http_get := (\<lambda>u. None)\<rparr>"


definition crlf_body :: string where
  "crlf_body = [CHR ''a'', CR, LF, CHR ''b'']"

definition crlf_world :: world where
  "crlf_world = ex_world\<lparr>http_get := (\<lambda>u. Some (200, crlf_body))\<rparr>"





text \<open>
  Three years run one after the other; a partition outcome with one paper per year;
  one in which the call for 2016 raises an \<open>Exception\<close>; and one in which the call
  for 2016 ends with \<open>asyncio.CancelledError\<close>.
\<close>

definition seq3_scraper :: scraper where
  "seq3_scraper = ex_scraper\<lparr>parallel_years := False\<rparr>"

definition year_paper :: "int \<Rightarrow> paper" where
  "year_paper y = ex_paper\<lparr>year := y\<rparr>"


definition run_fail_2016 :: "int \<Rightarrow> exn + paper list" where
  "run_fail_2016 y = (if y = 2016 then Inl (Exception ''boom'') else Inr [year_paper y])"


section \<open>Extraction: required fields\<close>

lemma scrape_soup_Some:
  "scrape_soup uj sp u y = Some r \<Longrightarrow>
     title r = extract_title sp \<and> abstract r = extract_abstract sp
     \<and> extract_title sp \<noteq> [] \<and> extract_abstract sp \<noteq> []"
  by (auto simp: scrape_soup_def Let_def split: option.splits if_splits prod.splits)

lemma scrape_soup_None:
  "extract_title sp = [] \<or> extract_abstract sp = [] \<Longrightarrow> scrape_soup uj sp u y = None"
  by (auto simp: scrape_soup_def Let_def split: option.splits if_splits prod.splits)

lemma scrape_paper_Some:
  "snd (scrape_paper self w files u y) = Inr (Some r) \<Longrightarrow>
     \<exists>content sp.
       snd (get_cached_or_fetch self w files u (Some (paper_cache_key w u))) = Inr (Some content)
       \<and> content \<noteq> [] \<and> parse_html w content = Some sp
       \<and> scrape_soup (urljoin w) sp u y = Some r"
  by (auto simp: scrape_paper_def split: option.splits if_splits prod.splits sum.splits)

text \<open>
  C5. Every record that \<open>scrape_paper\<close> returns has a non-empty title and a non-empty
  abstract; and a fetched page whose extracted title or abstract is empty gives no
  record at all.
\<close>

theorem record_fields_nonempty:
  "(snd (scrape_paper self w files u y) = Inr (Some r) \<longrightarrow> title r \<noteq> [] \<and> abstract r \<noteq> [])
   \<and> (snd (get_cached_or_fetch self w files u (Some (paper_cache_key w u))) = Inr (Some content)
        \<and> parse_html w content = Some sp
        \<and> (extract_title sp = [] \<or> extract_abstract sp = [])
      \<longrightarrow> snd (scrape_paper self w files u y) = Inr None)"
proof -
  have accepted: "title r \<noteq> [] \<and> abstract r \<noteq> []"
    if "snd (scrape_paper self w files u y) = Inr (Some r)"
  proof -
    from that obtain sp' where "scrape_soup (urljoin w) sp' u y = Some r"
      using scrape_paper_Some by blast
    then show ?thesis
      using scrape_soup_Some by metis
  qed
  have rejected: "snd (scrape_paper self w files u y) = Inr None"
    if f: "snd (get_cached_or_fetch self w files u (Some (paper_cache_key w u)))
             = Inr (Some content)"
      and p: "parse_html w content = Some sp"
      and e: "extract_title sp = [] \<or> extract_abstract sp = []"
  proof -
    from e have "scrape_soup (urljoin w) sp u y = None"
      by (rule scrape_soup_None)
    with f p show ?thesis
      by (auto simp: scrape_paper_def split: option.splits if_splits prod.splits sum.splits)
  qed
  from accepted rejected show ?thesis by blast
qed

lemma ex_scrape_paper:
  "snd (scrape_paper ex_scraper ex_world Map.empty ex_url 2024) = Inr (Some ex_paper)"
  by code_simp

lemma bare_fetch:
  "snd (get_cached_or_fetch ex_scraper ex_world Map.empty bare_url
          (Some (paper_cache_key ex_world bare_url))) = Inr (Some bare_page)"
  by code_simp

lemma bare_parse: "parse_html ex_world bare_page = Some bare_soup"
  by (simp add: ex_world_def bare_page_def ex_page_def short_page_def)

lemma bare_abstract: "extract_abstract bare_soup = []"
  by code_simp

theorem record_fields_nonempty_witness:
  "snd (scrape_paper ex_scraper ex_world Map.empty ex_url 2024) = Inr (Some ex_paper)
   \<and> title ex_paper \<noteq> [] \<and> abstract ex_paper \<noteq> []
   \<and> snd (get_cached_or_fetch ex_scraper ex_world Map.empty bare_url
            (Some (paper_cache_key ex_world bare_url))) = Inr (Some bare_page)
   \<and> parse_html ex_world bare_page = Some bare_soup
   \<and> extract_abstract bare_soup = []
   \<and> snd (scrape_paper ex_scraper ex_world Map.empty bare_url 2024) = Inr None"
  using record_fields_nonempty
      [of ex_scraper ex_world Map.empty ex_url 2024 ex_paper ex_page ex_soup]
    record_fields_nonempty
      [of ex_scraper ex_world Map.empty bare_url 2024 ex_paper bare_page bare_soup]
    ex_scrape_paper bare_fetch bare_parse bare_abstract
  by blast

section \<open>Extraction: the abstract\<close>

lemma short_title: "extract_title short_soup = ''A Paper''"
  by code_simp

lemma short_abstract: "extract_abstract short_soup = ''Too short.''"
  by code_simp

lemma short_authors: "extract_authors short_soup = []"
  by code_simp

lemma short_paragraph:
  "paragraph_loop [] (find_all_p short_soup) = replicate 250 (CHR ''x'')"
  by code_simp

text \<open>
  C2. The claim fails on the page \<open>short_page\<close>: its only abstract element holds 10
  characters behind the label, no later selector gives a longer text, and the loop
  leaves those 10 characters in \<open>abstract\<close>. The variable is then non-empty, so the
  paragraph fallback, which would have found the paragraph of 250 characters, is
  skipped, and the record is returned with the short abstract.
\<close>

theorem short_abstract_retained:
  "scrape_soup uj short_soup u y =
     Some \<lparr>title = ''A Paper'', authors = [], abstract = ''Too short.'', year = y, url = u,
           pdf_url = None, supplementary_url = None\<rparr>
   \<and> length ''Too short.'' \<le> (50::nat)
   \<and> paragraph_loop [] (find_all_p short_soup) = replicate 250 (CHR ''x'')"
proof -
  have l: "link_loop uj u ([], []) (find_all_a short_soup) = Some ([], [])"
    by (simp add: short_soup_def)
  show ?thesis
    by (simp add: scrape_soup_def short_title short_abstract short_authors l short_paragraph)
qed

section \<open>Extraction: resource links\<close>

lemma link_loop_last:
  "link_loop uj u (p0, s0) ls = Some (p, s) \<Longrightarrow>
     (if filter pdf_test ls = [] then p = p0
      else uj u (fst (last (filter pdf_test ls))) = Some p)
   \<and> (if filter (\<lambda>l. \<not> pdf_test l \<and> supp_test l) ls = [] then s = s0
      else uj u (fst (last (filter (\<lambda>l. \<not> pdf_test l \<and> supp_test l) ls))) = Some s)"
proof (induction ls arbitrary: p0 s0)
  case Nil
  then show ?case by simp
next
  case (Cons l ls)
  show ?case
  proof (cases "pdf_test l")
    case True
    with Cons.prems obtain j where j: "uj u (fst l) = Some j"
      and rest: "link_loop uj u (j, s0) ls = Some (p, s)"
      by (auto split: option.splits)
    from Cons.IH [OF rest] True j show ?thesis
      by (auto split: if_splits)
  next
    case False
    show ?thesis
    proof (cases "supp_test l")
      case True
      with False Cons.prems obtain j where j: "uj u (fst l) = Some j"
        and rest: "link_loop uj u (p0, j) ls = Some (p, s)"
        by (auto split: option.splits)
      from Cons.IH [OF rest] True False j show ?thesis
        by (auto split: if_splits)
    next
      case nosupp: False
      with False Cons.prems have rest: "link_loop uj u (p0, s0) ls = Some (p, s)"
        by simp
      from Cons.IH [OF rest] nosupp False show ?thesis
        by (auto split: if_splits)
    qed
  qed
qed



lemma scrape_soup_links:
  assumes "scrape_soup uj sp u y = Some r"
  shows "\<exists>p s. link_loop uj u ([], []) (find_all_a sp) = Some (p, s)
       \<and> pdf_url r = (if p \<noteq> [] then Some p else None)
       \<and> supplementary_url r = (if s \<noteq> [] then Some s else None)"
proof (cases "link_loop uj u ([], []) (find_all_a sp)")
  case None
  with assms show ?thesis by (simp add: scrape_soup_def)
next
  case (Some ps)
  obtain p s where ps: "ps = (p, s)" by (cases ps)
  from assms Some ps have "r = \<lparr>title = extract_title sp, authors = extract_authors sp,
      abstract = extract_abstract sp, year = y, url = u,
      pdf_url = (if p \<noteq> [] then Some p else None),
      supplementary_url = (if s \<noteq> [] then Some s else None)\<rparr>"
    by (simp add: scrape_soup_def Let_def split: if_splits)
  then have "pdf_url r = (if p \<noteq> [] then Some p else None)"
    and "supplementary_url r = (if s \<noteq> [] then Some s else None)"
    by simp_all
  with Some ps show ?thesis by blast
qed


text \<open>
  C10. For each hyperlink the PDF test comes first and the supplementary test is its
  \<open>elif\<close>: a link that passes both counts as a PDF link only. The record's
  \<open>pdf_url\<close> is the joined target of the last link in document order that passes the
  PDF test, and its \<open>supplementary_url\<close> that of the last link that fails the PDF
  test and passes the supplementary test; a field is \<open>None\<close> when there is no such
  link (or the joined target is empty).
\<close>

theorem link_classification:
  "scrape_soup uj sp u y = Some r \<Longrightarrow>
     pdf_url r =
       (if filter pdf_test (find_all_a sp) = [] then None
        else case uj u (fst (last (filter pdf_test (find_all_a sp)))) of
               None \<Rightarrow> None
             | Some j \<Rightarrow> if j \<noteq> [] then Some j else None)
   \<and> supplementary_url r =
       (if filter (\<lambda>l. \<not> pdf_test l \<and> supp_test l) (find_all_a sp) = [] then None
        else case uj u (fst (last (filter (\<lambda>l. \<not> pdf_test l \<and> supp_test l) (find_all_a sp)))) of
               None \<Rightarrow> None
             | Some j \<Rightarrow> if j \<noteq> [] then Some j else None)"
proof -
  assume "scrape_soup uj sp u y = Some r"
  then obtain p s where l: "link_loop uj u ([], []) (find_all_a sp) = Some (p, s)"
    and p: "pdf_url r = (if p \<noteq> [] then Some p else None)"
    and s: "supplementary_url r = (if s \<noteq> [] then Some s else None)"
    using scrape_soup_links by blast
  define pdfs where "pdfs = filter pdf_test (find_all_a sp)"
  define supps where "supps = filter (\<lambda>l. \<not> pdf_test l \<and> supp_test l) (find_all_a sp)"
  from link_loop_last [OF l]
  have lp: "if pdfs = [] then p = [] else uj u (fst (last pdfs)) = Some p"
    and ls: "if supps = [] then s = [] else uj u (fst (last supps)) = Some s"
    unfolding pdfs_def supps_def by blast+
  have a: "pdf_url r =
       (if pdfs = [] then None
        else case uj u (fst (last pdfs)) of
               None \<Rightarrow> None
             | Some j \<Rightarrow> if j \<noteq> [] then Some j else None)"
  proof (cases "pdfs = []")
    case True
    with lp have "p = []" by simp
    with p True show ?thesis by simp
  next
    case False
    with lp have "uj u (fst (last pdfs)) = Some p" by simp
    with p False show ?thesis by simp
  qed
  have b: "supplementary_url r =
       (if supps = [] then None
        else case uj u (fst (last supps)) of
               None \<Rightarrow> None
             | Some j \<Rightarrow> if j \<noteq> [] then Some j else None)"
  proof (cases "supps = []")
    case True
    with ls have "s = []" by simp
    with s True show ?thesis by simp
  next
    case False
    with ls have "uj u (fst (last supps)) = Some s" by simp
    with s False show ?thesis by simp
  qed
  from a b show ?thesis unfolding pdfs_def supps_def by blast
qed


lemma ex_scrape_soup: "scrape_soup (urljoin ex_world) ex_soup ex_url 2024 = Some ex_paper"
  by code_simp

lemma ex_pdfs:
  "filter pdf_test (find_all_a ex_soup) = [(''p.pdf'', ''pdf''), (''s.zip'', ''Supp PDF'')]"
  by code_simp

lemma ex_supps:
  "filter (\<lambda>l. \<not> pdf_test l \<and> supp_test l) (find_all_a ex_soup) = [(''t.zip'', ''supp'')]"
  by code_simp

lemma ex_both: "pdf_test (''s.zip'', ''Supp PDF'') \<and> supp_test (''s.zip'', ''Supp PDF'')"
  by code_simp

lemma ex_joins:
  "urljoin ex_world ex_url ''s.zip'' = Some ''https://example.org/d/s.zip''
   \<and> urljoin ex_world ex_url ''t.zip'' = Some ''https://example.org/d/t.zip''"
  by (simp add: ex_world_def)

theorem link_classification_witness:
  "scrape_soup (urljoin ex_world) ex_soup ex_url 2024 = Some ex_paper
   \<and> pdf_test (''s.zip'', ''Supp PDF'') \<and> supp_test (''s.zip'', ''Supp PDF'')
   \<and> pdf_url ex_paper = Some ''https://example.org/d/s.zip''
   \<and> supplementary_url ex_paper = Some ''https://example.org/d/t.zip''"
proof -
  from link_classification [OF ex_scrape_soup]
  have "pdf_url ex_paper = Some ''https://example.org/d/s.zip''"
    and "supplementary_url ex_paper = Some ''https://example.org/d/t.zip''"
    unfolding ex_pdfs ex_supps by (simp_all add: ex_joins)
  with ex_scrape_soup ex_both show ?thesis by blast
qed

section \<open>The cache: storing and reading back\<close>

lemma utf8_decode_ascii:
  "(of_char c :: nat) < 128 \<Longrightarrow> utf8_decode (c # bs) = map_option ((#) c) (utf8_decode bs)"
  by (cases bs) simp_all

lemma utf8_decode_two:
  assumes c1: "\<not> (of_char b1 :: nat) < 128"
    and c2: "(of_char b1 :: nat) = 194 \<or> (of_char b1 :: nat) = 195"
    and c3: "128 \<le> (of_char b2 :: nat)" and c4: "(of_char b2 :: nat) < 192"
  shows "utf8_decode (b1 # b2 # bs)
          = map_option ((#) (char_of (((of_char b1 :: nat) - 192) * 64
                                        + ((of_char b2 :: nat) - 128)))) (utf8_decode bs)"
  by (simp only: utf8_decode.simps Let_def c1 c2 c3 c4 if_False if_True simp_thms)

lemma div_64_range:
  assumes "128 \<le> n" and "n < 256"
  shows "(n::nat) div 64 = 2 \<or> n div 64 = 3"
proof -
  from assms(1) have "128 div 64 \<le> n div 64" by (rule div_le_mono)
  then have lower: "2 \<le> n div 64" by simp
  from assms(2) have "n < 4 * 64" by simp
  then have "n div 64 < 4" by (rule less_mult_imp_div_less)
  with lower show ?thesis by linarith
qed

lemma utf8_decode_pair:
  assumes "128 \<le> (of_char c :: nat)"
  shows "utf8_decode (char_of (192 + (of_char c :: nat) div 64)
                       # char_of (128 + (of_char c :: nat) mod 64) # bs)
         = map_option ((#) c) (utf8_decode bs)"
proof -
  define hi where "hi = (of_char c :: nat) div 64"
  define lo where "lo = (of_char c :: nat) mod 64"
  define b1 :: char where "b1 = char_of (192 + hi)"
  define b2 :: char where "b2 = char_of (128 + lo)"
  have "(of_char c :: nat) < 256" by simp
  with assms have hi: "hi = 2 \<or> hi = 3" unfolding hi_def by (rule div_64_range)
  have lo: "lo < 64" unfolding lo_def by simp
  have "(of_char b1 :: nat) = (192 + hi) mod 256"
    unfolding b1_def by (rule of_char_of)
  with hi have lead: "(of_char b1 :: nat) = 192 + hi" by auto
  have "(of_char b2 :: nat) = (128 + lo) mod 256"
    unfolding b2_def by (rule of_char_of)
  with lo have cont: "(of_char b2 :: nat) = 128 + lo" by simp
  have restored: "char_of (hi * 64 + lo) = c"
    unfolding hi_def lo_def by simp
  have c1: "\<not> (of_char b1 :: nat) < 128" using lead by simp
  have c2: "(of_char b1 :: nat) = 194 \<or> (of_char b1 :: nat) = 195"
    using lead hi by auto
  have c3: "128 \<le> (of_char b2 :: nat)" and c4: "(of_char b2 :: nat) < 192"
    using cont lo by simp_all
  have v: "((of_char b1 :: nat) - 192) * 64 + ((of_char b2 :: nat) - 128) = hi * 64 + lo"
    using lead cont by simp
  have "utf8_decode (b1 # b2 # bs) = map_option ((#) c) (utf8_decode bs)"
    unfolding utf8_decode_two [OF c1 c2 c3 c4] v restored ..
  then show ?thesis
    unfolding b1_def b2_def hi_def lo_def .
qed

lemma utf8_decode_encode_char:
  "utf8_decode (utf8_encode_char c @ bs) = map_option ((#) c) (utf8_decode bs)"
proof (cases "(of_char c :: nat) < 128")
  case True
  then have "utf8_encode_char c = [c]"
    by (simp only: utf8_encode_char_def Let_def if_True)
  with True show ?thesis by (simp only: append_Cons append_Nil utf8_decode_ascii)
next
  case False
  then have e: "utf8_encode_char c
      = [char_of (192 + (of_char c :: nat) div 64), char_of (128 + (of_char c :: nat) mod 64)]"
    by (simp only: utf8_encode_char_def Let_def if_False)
  from False have "128 \<le> (of_char c :: nat)" by simp
  then show ?thesis
    unfolding e by (simp only: append_Cons append_Nil utf8_decode_pair)
qed

lemma utf8_decode_encode: "utf8_decode (utf8_encode s) = Some s"
proof (induction s)
  case Nil
  then show ?case by (simp add: utf8_encode_def)
next
  case (Cons c s)
  have "utf8_encode (c # s) = utf8_encode_char c @ utf8_encode s"
    by (simp add: utf8_encode_def)
  with Cons show ?case by (simp add: utf8_decode_encode_char)
qed

lemma read_translate_Cons: "c \<noteq> CR \<Longrightarrow> read_translate (c # cs) = c # read_translate cs"
  by (cases cs) simp_all

lemma read_translate_no_CR: "CR \<notin> set s \<Longrightarrow> read_translate s = s"
proof (induction s)
  case Nil
  then show ?case by simp
next
  case (Cons c s)
  then have "c \<noteq> CR" and "read_translate s = s" by auto
  then show ?case by (simp add: read_translate_Cons)
qed

lemma cache_put_files:
  "\<not> open_w_raises w (cache_file k) \<Longrightarrow> write_fails_after w (cache_file k) = None \<Longrightarrow>
     cache_put w files k content = files(cache_file k \<mapsto> utf8_encode content)"
  by (simp add: cache_put_def write_f_def open_w_def Let_def)


lemma cache_get_stored:
  "\<not> stat_raises w (cache_file k) \<Longrightarrow> \<not> open_r_raises w (cache_file k) \<Longrightarrow>
     cache_get w (files(cache_file k \<mapsto> utf8_encode content)) k
       = Inr (Some (read_translate content))"
  by (simp add: cache_get_def path_exists_def read_text_def utf8_decode_encode)

text \<open>
  A put followed by a get returns the content with every carriage return, and every
  carriage return with its line feed, replaced by one line feed, whenever the operating
  system accepts the path of the cache file; content without a carriage return comes
  back unchanged.
\<close>

lemma cache_round_trip:
  "\<not> stat_raises w (cache_file k) \<Longrightarrow> \<not> open_w_raises w (cache_file k) \<Longrightarrow>
   \<not> open_r_raises w (cache_file k) \<Longrightarrow> write_fails_after w (cache_file k) = None \<Longrightarrow>
     cache_get w (cache_put w files k content) k = Inr (Some (read_translate content))"
  by (simp add: cache_put_files cache_get_stored)

lemma crlf_fetch:
  "snd (get_cached_or_fetch ex_scraper crlf_world Map.empty ex_url (Some ''paper_42''))
     = Inr (Some crlf_body)"
  by code_simp

lemma crlf_hit:
  "snd (get_cached_or_fetch ex_scraper crlf_world
          (fst (get_cached_or_fetch ex_scraper crlf_world Map.empty ex_url (Some ''paper_42'')))
          ex_url (Some ''paper_42''))
     = Inr (Some [CHR ''a'', LF, CHR ''b''])"
  by code_simp

lemma crlf_put_get:
  "cache_get crlf_world (cache_put crlf_world Map.empty ''paper_42'' crlf_body) ''paper_42''
     = Inr (Some [CHR ''a'', LF, CHR ''b''])"
  by code_simp

lemma crlf_differs: "crlf_body \<noteq> [CHR ''a'', LF, CHR ''b'']"
  by (simp add: crlf_body_def)

text \<open>
  C7. The claim fails on content with a carriage return. The body \<open>a\r\nb\<close> is
  stored under the key \<open>paper_42\<close> as it is and read back as \<open>a\nb\<close>; the
  call of \<open>get_cached_or_fetch\<close> that fetches it returns the body as served, and
  the next call, which finds it in the cache, returns the changed text.
\<close>

theorem carriage_return_not_preserved:
  "cache_get crlf_world (cache_put crlf_world Map.empty ''paper_42'' crlf_body) ''paper_42''
     = Inr (Some [CHR ''a'', LF, CHR ''b''])
   \<and> crlf_body \<noteq> [CHR ''a'', LF, CHR ''b'']
   \<and> snd (get_cached_or_fetch ex_scraper crlf_world Map.empty ex_url (Some ''paper_42''))
       = Inr (Some crlf_body)
   \<and> snd (get_cached_or_fetch ex_scraper crlf_world
            (fst (get_cached_or_fetch ex_scraper crlf_world Map.empty ex_url
                    (Some ''paper_42'')))
            ex_url (Some ''paper_42''))
       = Inr (Some [CHR ''a'', LF, CHR ''b''])"
  by (intro conjI crlf_put_get crlf_differs crlf_fetch crlf_hit)

section \<open>The cache: a put is not atomic\<close>







lemma cache_file_paper_42: "cache_file ''paper_42'' = ''cvpr_cache/paper_42.html''"
  by code_simp






section \<open>The cache key of a document page\<close>

lemma digit_char_code: "d < 10 \<Longrightarrow> (of_char (digit_char d) :: nat) = 48 + d"
  by (simp add: digit_char_def)

lemma digit_char_inj: "a < 10 \<Longrightarrow> b < 10 \<Longrightarrow> digit_char a = digit_char b \<Longrightarrow> a = b"
proof -
  assume a: "a < 10" and b: "b < 10" and e: "digit_char a = digit_char b"
  from e have "(of_char (digit_char a) :: nat) = of_char (digit_char b)" by simp
  with a b show ?thesis by (simp add: digit_char_code)
qed

lemma digit_char_not_minus: "d < 10 \<Longrightarrow> digit_char d \<noteq> CHR ''-''"
proof
  assume d: "d < 10" and e: "digit_char d = CHR ''-''"
  from e have "(of_char (digit_char d) :: nat) = of_char (CHR ''-'')" by simp
  with d show False by (simp add: digit_char_code)
qed

lemma str_nat_small: "n < 10 \<Longrightarrow> str_nat n = [digit_char n]"
  by (subst str_nat.simps) simp

lemma str_nat_large:
  "\<not> n < 10 \<Longrightarrow> str_nat n = str_nat (n div 10) @ [digit_char (n mod 10)]"
  by (subst str_nat.simps) simp

lemma str_nat_not_Nil: "str_nat n \<noteq> []"
  by (cases "n < 10") (simp_all add: str_nat_small str_nat_large)

lemma str_nat_hd: "\<exists>d cs. d < 10 \<and> str_nat n = digit_char d # cs"
proof (induction n rule: str_nat.induct)
  case (1 n)
  show ?case
  proof (cases "n < 10")
    case True
    then show ?thesis by (auto simp: str_nat_small)
  next
    case False
    with 1 obtain d cs where "d < 10" and "str_nat (n div 10) = digit_char d # cs"
      by blast
    with False show ?thesis by (auto simp: str_nat_large)
  qed
qed

lemma str_nat_inj: "str_nat m = str_nat n \<Longrightarrow> m = n"
proof (induction m arbitrary: n rule: str_nat.induct)
  case (1 m)
  show ?case
  proof (cases "m < 10")
    case m: True
    show ?thesis
    proof (cases "n < 10")
      case True
      with m "1.prems" have "digit_char m = digit_char n"
        by (simp add: str_nat_small)
      with m True show ?thesis by (rule digit_char_inj)
    next
      case False
      with m "1.prems" show ?thesis
        using str_nat_not_Nil [of "n div 10"] by (simp add: str_nat_small str_nat_large)
    qed
  next
    case m: False
    show ?thesis
    proof (cases "n < 10")
      case True
      with m "1.prems" show ?thesis
        using str_nat_not_Nil [of "m div 10"] by (simp add: str_nat_small str_nat_large)
    next
      case False
      with m "1.prems" have e: "str_nat (m div 10) = str_nat (n div 10)"
        and d: "digit_char (m mod 10) = digit_char (n mod 10)"
        by (simp_all add: str_nat_large)
      from "1.IH" [OF m e] have "m div 10 = n div 10" .
      moreover have "m mod 10 < 10" and "n mod 10 < 10" by simp_all
      then have "m mod 10 = n mod 10"
        using d by (rule digit_char_inj)
      ultimately show ?thesis
        by (metis div_mult_mod_eq)
    qed
  qed
qed

lemma str_nat_no_minus: "str_nat n \<noteq> CHR ''-'' # cs"
proof
  assume e: "str_nat n = CHR ''-'' # cs"
  obtain d cs' where d: "d < 10" and h: "str_nat n = digit_char d # cs'"
    using str_nat_hd by blast
  from e h have "digit_char d = CHR ''-''" by simp
  with d show False using digit_char_not_minus by blast
qed

lemma py_str_int_inj: "py_str_int i = py_str_int j \<Longrightarrow> i = j"
proof -
  assume e: "py_str_int i = py_str_int j"
  show ?thesis
  proof (cases "i < 0")
    case i: True
    show ?thesis
    proof (cases "j < 0")
      case True
      with i e have "str_nat (nat (- i)) = str_nat (nat (- j))"
        by (simp add: py_str_int_def)
      then have "nat (- i) = nat (- j)" by (rule str_nat_inj)
      with i True show ?thesis by simp
    next
      case False
      with i e have "str_nat (nat j) = CHR ''-'' # str_nat (nat (- i))"
        by (simp add: py_str_int_def)
      then show ?thesis using str_nat_no_minus by blast
    qed
  next
    case i: False
    show ?thesis
    proof (cases "j < 0")
      case True
      with i e have "str_nat (nat i) = CHR ''-'' # str_nat (nat (- j))"
        by (simp add: py_str_int_def)
      then show ?thesis using str_nat_no_minus by blast
    next
      case False
      with i e have "str_nat (nat i) = str_nat (nat j)"
        by (simp add: py_str_int_def)
      then have "nat i = nat j" by (rule str_nat_inj)
      with i False show ?thesis by simp
    qed
  qed
qed

text \<open>
  The cache key of a document page is the same in two runs exactly when the
  interpreter's hash of the URL is.
\<close>

lemma paper_cache_key_eq_iff:
  "paper_cache_key w1 u = paper_cache_key w2 u \<longleftrightarrow> py_hash w1 u = py_hash w2 u"
proof
  assume "paper_cache_key w1 u = paper_cache_key w2 u"
  then have "py_str_int (py_hash w1 u) = py_str_int (py_hash w2 u)"
    by (simp add: paper_cache_key_def)
  then show "py_hash w1 u = py_hash w2 u" by (rule py_str_int_inj)
next
  assume "py_hash w1 u = py_hash w2 u"
  then show "paper_cache_key w1 u = paper_cache_key w2 u"
    by (simp add: paper_cache_key_def)
qed

lemma first_run_key: "paper_cache_key ex_world ex_url = ''paper_42''"
  by code_simp

lemma second_run_key: "paper_cache_key rerun_world ex_url = ''paper_-7''"
  by code_simp

lemma first_run_cached:
  "cache_get ex_world (fst (scrape_paper ex_scraper ex_world Map.empty ex_url 2024))
       ''paper_42''
     = Inr (Some ex_page)"
  by code_simp

lemma second_run_miss:
  "snd (scrape_paper ex_scraper rerun_world
          (fst (scrape_paper ex_scraper ex_world Map.empty ex_url 2024)) ex_url 2024)
     = Inr None"
  by code_simp

lemma same_hash_hit:
  "snd (scrape_paper ex_scraper offline_world
          (fst (scrape_paper ex_scraper ex_world Map.empty ex_url 2024)) ex_url 2024)
     = Inr (Some ex_paper)"
  by code_simp

text \<open>
  C3. The cache key of a document page is built from the interpreter's \<open>hash\<close> of
  the URL, which Python salts anew in every process, so the key is not a function of
  the URL alone. In the first run the page is fetched, stored under \<open>paper_42\<close> and
  extracted. In a second run over the unmodified cache, with another hash secret and
  no network, the key is \<open>paper_-7\<close>, the stored page is not found and no record is
  produced; with the hash of the first run the same stored page is found.
\<close>

theorem salted_hash_cache_miss:
  "paper_cache_key ex_world ex_url = ''paper_42''
   \<and> paper_cache_key rerun_world ex_url = ''paper_-7''
   \<and> snd (scrape_paper ex_scraper ex_world Map.empty ex_url 2024) = Inr (Some ex_paper)
   \<and> cache_get ex_world (fst (scrape_paper ex_scraper ex_world Map.empty ex_url 2024))
         ''paper_42''
       = Inr (Some ex_page)
   \<and> snd (scrape_paper ex_scraper rerun_world
            (fst (scrape_paper ex_scraper ex_world Map.empty ex_url 2024)) ex_url 2024)
       = Inr None
   \<and> snd (scrape_paper ex_scraper offline_world
            (fst (scrape_paper ex_scraper ex_world Map.empty ex_url 2024)) ex_url 2024)
       = Inr (Some ex_paper)"
  by (intro conjI first_run_key second_run_key ex_scrape_paper first_run_cached
      second_run_miss same_hash_hit)

section \<open>The admission gate\<close>







lemma idle_upd_same: "idle (g(y \<mapsto> t)) y = (waiting t = 0 \<and> in_flight t = 0)"
  by (simp add: idle_def)



















section \<open>Running all years: merging and checkpoints\<close>

lemma ok_papers_Nil: "ok_papers run [] = []"
  by (simp add: ok_papers_def)

lemma ok_papers_Cons:
  "ok_papers run (y # ys) = (case run y of Inl e \<Rightarrow> [] | Inr ps \<Rightarrow> ps) @ ok_papers run ys"
  by (simp add: ok_papers_def)

lemma upto_head: "a \<le> y \<Longrightarrow> [a..y] = a # [a + 1..y]"
  by (simp add: upto_rec1)

lemma ok_papers_upto:
  "a \<le> y \<Longrightarrow>
     ok_papers run [a..y] = (case run a of Inl e \<Rightarrow> [] | Inr ps \<Rightarrow> ps) @ ok_papers run [a + 1..y]"
  by (simp add: upto_head ok_papers_Cons)



lemma seq_loop_upto:
  "seq_loop run acc [a..b]
     = (concat (map (\<lambda>y. [YearDone y, CheckpointWrite (partial_file y) (acc @ ok_papers run [a..y])])
                 (takeWhile (\<lambda>y. \<not> isl (run y)) [a..b]))
        @ (case dropWhile (\<lambda>y. \<not> isl (run y)) [a..b] of [] \<Rightarrow> [] | y # ys \<Rightarrow> [YearDone y]),
        case dropWhile (\<lambda>y. \<not> isl (run y)) [a..b] of
          [] \<Rightarrow> Inr (acc @ ok_papers run [a..b])
        | y # ys \<Rightarrow> run y)"
proof (induction a b arbitrary: acc rule: upto.induct)
  case (1 a b)
  show ?case
  proof (cases "a \<le> b")
    case False
    then show ?thesis by (simp add: ok_papers_Nil)
  next
    case True
    then have ab: "[a..b] = a # [a + 1..b]" by (rule upto_head)
    show ?thesis
    proof (cases "run a")
      case (Inl e)
      then show ?thesis by (simp add: ab)
    next
      case (Inr ps)
      have later: "ok_papers run [a..y] = ps @ ok_papers run [a + 1..y]"
        if "y \<in> set (takeWhile (\<lambda>y. \<not> isl (run y)) [a + 1..b])" for y
      proof -
        from that have "y \<in> set [a + 1..b]" by (rule set_takeWhileD [THEN conjunct1])
        then have "a \<le> y" by simp
        then show ?thesis by (simp add: ok_papers_upto Inr)
      qed
      have ih: "seq_loop run (acc @ ps) [a + 1..b]
        = (concat (map (\<lambda>y. [YearDone y,
                     CheckpointWrite (partial_file y) ((acc @ ps) @ ok_papers run [a + 1..y])])
                 (takeWhile (\<lambda>y. \<not> isl (run y)) [a + 1..b]))
           @ (case dropWhile (\<lambda>y. \<not> isl (run y)) [a + 1..b] of [] \<Rightarrow> [] | y # ys \<Rightarrow> [YearDone y]),
           case dropWhile (\<lambda>y. \<not> isl (run y)) [a + 1..b] of
             [] \<Rightarrow> Inr ((acc @ ps) @ ok_papers run [a + 1..b])
           | y # ys \<Rightarrow> run y)"
        using True by (rule "1.IH")
      have m: "map (\<lambda>y. [YearDone y,
                     CheckpointWrite (partial_file y) ((acc @ ps) @ ok_papers run [a + 1..y])])
                 (takeWhile (\<lambda>y. \<not> isl (run y)) [a + 1..b])
               = map (\<lambda>y. [YearDone y, CheckpointWrite (partial_file y) (acc @ ok_papers run [a..y])])
                 (takeWhile (\<lambda>y. \<not> isl (run y)) [a + 1..b])"
        by (rule map_cong [OF refl]) (simp add: later)
      have first: "ok_papers run [a] = ps"
        by (simp add: ok_papers_def Inr)
      have r: "acc @ ok_papers run [a..b] = (acc @ ps) @ ok_papers run [a + 1..b]"
        using True by (simp add: ok_papers_upto Inr)
      have t: "takeWhile (\<lambda>y. \<not> isl (run y)) [a..b] = a # takeWhile (\<lambda>y. \<not> isl (run y)) [a + 1..b]"
        and d: "dropWhile (\<lambda>y. \<not> isl (run y)) [a..b] = dropWhile (\<lambda>y. \<not> isl (run y)) [a + 1..b]"
        by (simp_all add: ab Inr)
      have "seq_loop run acc [a..b]
              = (YearDone a # CheckpointWrite (partial_file a) (acc @ ps)
                   # fst (seq_loop run (acc @ ps) [a + 1..b]),
                 snd (seq_loop run (acc @ ps) [a + 1..b]))"
        by (simp add: ab Inr Let_def split: prod.splits)
      then show ?thesis
        unfolding ih m t d r by (simp add: first)
    qed
  qed
qed



lemma scrape_all_years_sequential:
  "\<not> parallel_mode self \<Longrightarrow>
     scrape_all_years self run completion
       = (concat (map (\<lambda>y. [YearDone y,
                            CheckpointWrite (partial_file y) (ok_papers run [start_year self..y])])
                   (takeWhile (\<lambda>y. \<not> isl (run y)) (years_of self)))
          @ (case dropWhile (\<lambda>y. \<not> isl (run y)) (years_of self) of
               [] \<Rightarrow> [] | y # ys \<Rightarrow> [YearDone y]),
          case dropWhile (\<lambda>y. \<not> isl (run y)) (years_of self) of
            [] \<Rightarrow> Inr (ok_papers run (years_of self))
          | y # ys \<Rightarrow> run y)"
proof -
  assume "\<not> parallel_mode self"
  then have p: "\<not> (parallel_years self \<and> 1 < length (years_of self))"
    by (simp add: parallel_mode_def)
  have m: "seq_loop run [] (years_of self)
     = (concat (map (\<lambda>y. [YearDone y,
                    CheckpointWrite (partial_file y) (ok_papers run [start_year self..y])])
                 (takeWhile (\<lambda>y. \<not> isl (run y)) (years_of self)))
        @ (case dropWhile (\<lambda>y. \<not> isl (run y)) (years_of self) of
             [] \<Rightarrow> [] | y # ys \<Rightarrow> [YearDone y]),
        case dropWhile (\<lambda>y. \<not> isl (run y)) (years_of self) of
          [] \<Rightarrow> Inr (ok_papers run (years_of self))
        | y # ys \<Rightarrow> run y)"
    using seq_loop_upto [of run "[]" "start_year self" "end_year self"]
    by (simp add: years_of_def cong: list.case_cong)
  have "scrape_all_years self run completion = seq_loop run [] (years_of self)"
    unfolding scrape_all_years_def Let_def using p by (rule if_not_P)
  with m show ?thesis by (simp only:)
qed












lemma seq3_not_parallel: "\<not> parallel_mode seq3_scraper"
  by code_simp





section \<open>Running all years: an exception in sequential mode\<close>

lemma run_fail_first:
  assumes "a \<le> y" and "y \<le> b" and "\<forall>x \<in> set [a..y - 1]. \<not> isl (run x)" and "run y = Inl e"
  shows "takeWhile (\<lambda>x. \<not> isl (run x)) [a..b] = [a..y - 1]"
    and "dropWhile (\<lambda>x. \<not> isl (run x)) [a..b] = y # [y + 1..b]"
proof -
  from assms(1,2) have split: "[a..b] = [a..y - 1] @ y # [y + 1..b]"
    by (rule upto_split3)
  from assms(4) have y: "\<not> \<not> isl (run y)" by simp
  have pre: "\<not> isl (run x)" if "x \<in> set [a..y - 1]" for x
    using assms(3) that by blast
  have "takeWhile (\<lambda>x. \<not> isl (run x)) ([a..y - 1] @ y # [y + 1..b])
          = [a..y - 1] @ takeWhile (\<lambda>x. \<not> isl (run x)) (y # [y + 1..b])"
    by (rule takeWhile_append2) (rule pre)
  with y show "takeWhile (\<lambda>x. \<not> isl (run x)) [a..b] = [a..y - 1]"
    unfolding split by simp
  have "dropWhile (\<lambda>x. \<not> isl (run x)) ([a..y - 1] @ y # [y + 1..b])
          = dropWhile (\<lambda>x. \<not> isl (run x)) (y # [y + 1..b])"
    by (rule dropWhile_append2) (rule pre)
  with y show "dropWhile (\<lambda>x. \<not> isl (run x)) [a..b] = y # [y + 1..b]"
    unfolding split by simp
qed

text \<open>
  C9. When the years run one after the other (the parallel branch is not taken) and the
  call for year \<open>y\<close> is the first to raise, \<open>scrape_all_years\<close> ends with
  that exception: the trace holds the calls and checkpoints of the years before \<open>y\<close>
  and the end of the call for \<open>y\<close>, and nothing for any later year.
\<close>

theorem sequential_exception_aborts:
  assumes "\<not> parallel_mode self"
    and "start_year self \<le> y" and "y \<le> end_year self"
    and "\<forall>x \<in> set [start_year self..y - 1]. \<not> isl (run x)"
    and "run y = Inl e"
  shows "scrape_all_years self run completion
           = (concat (map (\<lambda>x. [YearDone x,
                                CheckpointWrite (partial_file x)
                                  (ok_papers run [start_year self..x])])
                       [start_year self..y - 1])
                @ [YearDone y],
              Inl e)"
proof -
  have t: "takeWhile (\<lambda>x. \<not> isl (run x)) (years_of self) = [start_year self..y - 1]"
    and d: "dropWhile (\<lambda>x. \<not> isl (run x)) (years_of self) = y # [y + 1..end_year self]"
    unfolding years_of_def using assms(2-5) by (rule run_fail_first)+
  show ?thesis
    unfolding scrape_all_years_sequential [OF assms(1)] t d using assms(5) by simp
qed

lemma seq3_start: "start_year seq3_scraper = 2015"
  by (simp add: seq3_scraper_def ex_scraper_def)

lemma seq3_end: "end_year seq3_scraper = 2017"
  by (simp add: seq3_scraper_def ex_scraper_def)

lemma run_fail_2015: "run_fail_2016 2015 = Inr [year_paper 2015]"
  by (simp add: run_fail_2016_def)

lemma run_fail_at_2016: "run_fail_2016 2016 = Inl (Exception ''boom'')"
  by (simp add: run_fail_2016_def)

lemma partial_2015: "partial_file 2015 = ''cvpr_abstracts_partial_2015.json''"
  by code_simp

theorem sequential_exception_aborts_witness:
  "\<not> parallel_mode seq3_scraper
   \<and> start_year seq3_scraper \<le> 2016 \<and> 2016 \<le> end_year seq3_scraper
   \<and> run_fail_2016 2015 = Inr [year_paper 2015]
   \<and> run_fail_2016 2016 = Inl (Exception ''boom'')
   \<and> scrape_all_years seq3_scraper run_fail_2016 []
       = ([YearDone 2015,
           CheckpointWrite ''cvpr_abstracts_partial_2015.json'' [year_paper 2015],
           YearDone 2016],
          Inl (Exception ''boom''))"
proof -
  have pre: "\<forall>x \<in> set [start_year seq3_scraper..2016 - 1]. \<not> isl (run_fail_2016 x)"
    by (simp add: seq3_start run_fail_2015)
  have s: "start_year seq3_scraper \<le> 2016" and e: "2016 \<le> end_year seq3_scraper"
    by (simp_all add: seq3_start seq3_end)
  from sequential_exception_aborts [OF seq3_not_parallel s e pre run_fail_at_2016, of "[]"]
  have "scrape_all_years seq3_scraper run_fail_2016 []
       = ([YearDone 2015,
           CheckpointWrite ''cvpr_abstracts_partial_2015.json'' [year_paper 2015],
           YearDone 2016],
          Inl (Exception ''boom''))"
    by (simp add: seq3_start ok_papers_def run_fail_2015 partial_2015)
  with seq3_not_parallel s e run_fail_2015 run_fail_at_2016 show ?thesis by blast
qed

end
